theory Spec2Isabelle
  imports Main "HOL-Library.Multiset"
begin

section \<open>The task watcher (tasks/watch\_tasks.py)\<close>

subsection \<open>Data\<close>

text \<open>
  Exceptions of the Python code are values.  A function that may raise returns
  \<open>py_error + 'a\<close>, with \<open>Inl\<close> for the exception.
\<close>

datatype py_error = AttributeError | KeyError | TypeError | BinasciiError | ValueError string

text \<open>
  A JSON value as far as the watcher looks at one: the \<open>urgency\<close> entry of a payload is
  read with \<open>.lower()\<close>, which only a string has.
\<close>

datatype jvalue = JNull | JBool bool | JNum int | JStr string

text \<open>
  A dictionary entry read with \<open>d.get(k, default)\<close> is in one of three states: the
  key is missing (the default is taken), the key holds JSON \<open>null\<close> (Python \<open>None\<close>
  is returned, not the default), or it holds a value.
\<close>

datatype 'a field = Missing | Null | Present 'a

text \<open>One entry of \<open>attempts_info\<close> (the dictionary \<open>attempt_info\<close> of the retry loop).\<close>

record attempt_info =
  try_num :: int
  info_refined_task :: "string option"
  evaluation_result :: string
  replanned_task :: "string option"
  refined_replan_task :: "string option"

text \<open>
  The payload dictionary.  \<open>urgency = None\<close> and \<open>task_text = None\<close> mean that the key is
  absent; \<open>refined\<close> is the truth value of \<open>payload.get("refined", False)\<close>.
\<close>

record payload =
  urgency :: "jvalue option"
  task_text :: "string option"
  original_task :: "string option"
  refined_task :: "string option"
  refined :: bool

text \<open>
  A task dictionary.  \<open>task_id = None\<close> is a missing or null id (\<open>t.get("task_id")\<close>
  gives \<open>None\<close> for both); \<open>attempts\<close>, \<open>status\<close> and \<open>attempts_info\<close> are absent until the
  watcher writes them.  The wall-clock entries \<open>started_at\<close> and \<open>duration_seconds\<close> are
  left out: nothing below reads them.
\<close>

record task =
  task_id :: "string option"
  kind :: "string option"
  payload :: "payload field"
  attempts :: "int option"
  status :: "string option"
  attempts_info :: "attempt_info list option"

subsection \<open>Priorities\<close>

definition PRIORITY_ORDER :: "(string \<times> nat) list" where
  "PRIORITY_ORDER = [(''urgent'', 0), (''high'', 1), (''medium'', 2), (''low'', 3)]"

text \<open>
  \<open>str.lower()\<close>.  Strings are byte strings here; the ASCII capitals are mapped to their
  small letters and every other byte is kept.  (On code points beyond ASCII Python's
  \<open>lower\<close> yields code points beyond ASCII again, the Kelvin sign excepted, which becomes
  \<open>k\<close>; no key of \<open>PRIORITY_ORDER\<close> has a \<open>k\<close>, so the lookup below is not affected.)
\<close>

definition ascii_uppercase :: string where
  "ascii_uppercase = ''ABCDEFGHIJKLMNOPQRSTUVWXYZ''"

definition ascii_lowercase :: string where
  "ascii_lowercase = ''abcdefghijklmnopqrstuvwxyz''"

definition lower_char :: "char \<Rightarrow> char" where
  "lower_char c =
     (case map_of (zip ascii_uppercase ascii_lowercase) c of Some l \<Rightarrow> l | None \<Rightarrow> c)"

definition lower :: "string \<Rightarrow> string" where
  "lower s = map lower_char s"

text \<open>
  \<^verbatim>\<open>
  def get_priority(task):
      urgency = (task.get("payload", {}) or {}).get("urgency", "medium")
      return PRIORITY_ORDER.get(urgency.lower(), PRIORITY_ORDER["medium"])
  \<close>
  A missing or null payload counts as the empty dictionary.  A missing \<open>urgency\<close> is
  \<open>"medium"\<close>; an \<open>urgency\<close> that is present and not a string has no \<open>lower\<close>, and the
  call raises \<open>AttributeError\<close>.
\<close>

definition payload_urgency :: "task \<Rightarrow> jvalue option" where
  "payload_urgency t = (case payload t of Present p \<Rightarrow> urgency p | _ \<Rightarrow> None)"

definition priority_of_string :: "string \<Rightarrow> nat" where
  "priority_of_string s =
     (case map_of PRIORITY_ORDER (lower s) of Some r \<Rightarrow> r | None \<Rightarrow> the (map_of PRIORITY_ORDER ''medium''))"

definition get_priority :: "task \<Rightarrow> py_error + nat" where
  "get_priority t =
     (case payload_urgency t of
        None \<Rightarrow> Inr (priority_of_string ''medium'')
      | Some (JStr s) \<Rightarrow> Inr (priority_of_string s)
      | Some _ \<Rightarrow> Inl AttributeError)"

subsection \<open>The environment\<close>

text \<open>
  What the watcher does not decide itself is an argument of the model.  Every call that
  leaves the process (the random source, the health probe, the three language-model
  calls) takes the number of such calls made so far, the \<open>tick\<close> of the watcher state,
  so that two calls with the same arguments may answer differently.  The three
  language-model functions stand for the call together with the \<open>.strip()\<close> the watcher
  applies to its result.
\<close>

record env =
  MAX_ATTEMPTS :: int
  random_suffix :: "nat \<Rightarrow> string"
  check_orchestrator_health :: "nat \<Rightarrow> bool"
  refine_task :: "nat \<Rightarrow> string \<Rightarrow> string"
  evaluate_and_replan_with_llm :: "nat \<Rightarrow> string \<Rightarrow> string"
  refine_replan_task :: "nat \<Rightarrow> string \<Rightarrow> string"

subsection \<open>The priority queue\<close>

text \<open>
  A queue entry is the tuple \<open>(prio, next(seq), tid, task)\<close>.  \<open>heapq\<close> is the Python
  standard library's binary heap; it is modelled by its contract: \<open>heappush\<close> adds
  an entry, \<open>heappop\<close> removes and returns the smallest one.  Tuples are compared
  from the left, and no two entries of the watcher share a sequence number, so the
  comparison is decided by priority and sequence number.
\<close>

type_synonym entry = "nat \<times> nat \<times> string option \<times> task"

definition entry_prio :: "entry \<Rightarrow> nat" where
  "entry_prio e = fst e"

definition entry_seq :: "entry \<Rightarrow> nat" where
  "entry_seq e = fst (snd e)"

definition entry_tid :: "entry \<Rightarrow> string option" where
  "entry_tid e = fst (snd (snd e))"

definition entry_task :: "entry \<Rightarrow> task" where
  "entry_task e = snd (snd (snd e))"

definition entry_less :: "entry \<Rightarrow> entry \<Rightarrow> bool" where
  "entry_less a b \<longleftrightarrow>
     entry_prio a < entry_prio b \<or> (entry_prio a = entry_prio b \<and> entry_seq a < entry_seq b)"

definition heappush :: "entry list \<Rightarrow> entry \<Rightarrow> entry list" where
  "heappush q e = q @ [e]"

fun smallest :: "entry \<Rightarrow> entry list \<Rightarrow> entry" where
  "smallest m [] = m"
| "smallest m (e # es) = smallest (if entry_less e m then e else m) es"

fun heappop :: "entry list \<Rightarrow> (entry \<times> entry list) option" where
  "heappop [] = None"
| "heappop (e # es) = (let m = smallest e es in Some (m, remove1 m (e # es)))"

text \<open>Popping until the queue is empty, with nothing pushed in between.\<close>

function drain :: "entry list \<Rightarrow> entry list" where
  "drain q = (case heappop q of None \<Rightarrow> [] | Some (m, q') \<Rightarrow> m # drain q')"
  by pat_completeness auto
termination
proof (relation "measure length", goal_cases)
  case 1
  show ?case by simp
next
  case (2 q x m q')
  have mem: "smallest a xs \<in> set (a # xs)" for a xs
    by (induction xs arbitrary: a) auto
  from 2 obtain e es where q: "q = e # es"
    by (cases q) auto
  with 2 have m: "m = smallest e es" and q': "q' = remove1 m (e # es)"
    by (auto simp: Let_def)
  from mem [of e es] m have "m \<in> set (e # es)"
    by simp
  then have "length (remove1 m (e # es)) < length (e # es)"
    by (simp only: length_remove1) simp
  with q q' show ?case
    by simp
qed

declare drain.simps [simp del]

subsection \<open>The watcher state\<close>

text \<open>
  The three files and the local variables of \<open>main\<close>.  \<open>task_file\<close> is what \<open>load_tasks\<close>
  reads from \<open>TASK_FILE\<close> (the empty list when the file is missing or not JSON),
  \<open>completed_file\<close> the content of \<open>COMPLETED_FILE\<close>, \<open>running_file\<close> that of
  \<open>RUNNING_FILE\<close>.  \<open>seq\<close> is the next value of \<open>itertools.count()\<close>.
\<close>

record watcher =
  task_file :: "task list"
  completed_file :: "task list"
  running_file :: "task option"
  seq :: nat
  seen_ids :: "string set"
  task_queue :: "entry list"
  idle_state :: bool
  tick :: nat

definition start_watcher :: "task list \<Rightarrow> task list \<Rightarrow> watcher" where
  "start_watcher tasks done =
     \<lparr>task_file = tasks, completed_file = done, running_file = None, seq = 0, seen_ids = {},
      task_queue = [], idle_state = False, tick = 0\<rparr>"

subsection \<open>Polling the pending store\<close>

text \<open>The truth value of \<open>t.get("task_id")\<close>: a missing, null or empty id is false.\<close>

definition has_id :: "task \<Rightarrow> bool" where
  "has_id t = (case task_id t of None \<Rightarrow> False | Some s \<Rightarrow> s \<noteq> [])"

definition existing_ids :: "task list \<Rightarrow> string set" where
  "existing_ids tasks = set (map (\<lambda>t. the (task_id t)) (filter has_id tasks))"

text \<open>
  \<^verbatim>\<open>
  def generate_task_id(existing_ids=None):
      existing_ids = existing_ids or set()
      while True:
          suffix = "".join(random.choices(string.ascii_lowercase + string.digits, k=4))
          tid = f"Task-{suffix}"
          if tid not in existing_ids:
              return tid
  \<close>
  The loop draws until it finds an unused id, and runs forever when it never does: the
  result \<open>None\<close> is the call that does not return.  The second component of a result is
  the tick after the last draw.
\<close>

partial_function (option) generate_task_id ::
  "(nat \<Rightarrow> string) \<Rightarrow> string set \<Rightarrow> nat \<Rightarrow> (string \<times> nat) option" where
  "generate_task_id rnd ids n =
     (if ''Task-'' @ rnd n \<notin> ids then Some (''Task-'' @ rnd n, Suc n)
      else generate_task_id rnd ids (Suc n))"

declare generate_task_id.simps [code]

text \<open>
  The first loop of a poll (lines 161 to 165): every task without an id gets a fresh
  one, which joins \<open>all_existing_ids\<close>.
\<close>

fun assign_ids ::
  "(nat \<Rightarrow> string) \<Rightarrow> task list \<Rightarrow> string set \<Rightarrow> nat \<Rightarrow> (task list \<times> string set \<times> nat) option" where
  "assign_ids rnd [] ids n = Some ([], ids, n)"
| "assign_ids rnd (t # ts) ids n =
     (if has_id t then
        (case assign_ids rnd ts ids n of
           None \<Rightarrow> None
         | Some (ts', ids', n') \<Rightarrow> Some (t # ts', ids', n'))
      else
        (case generate_task_id rnd ids n of
           None \<Rightarrow> None
         | Some (tid, n1) \<Rightarrow>
             (case assign_ids rnd ts (insert tid ids) n1 of
                None \<Rightarrow> None
              | Some (ts', ids', n') \<Rightarrow> Some (t\<lparr>task_id := Some tid\<rparr> # ts', ids', n'))))"

text \<open>
  The second loop (lines 169 to 175): a task with an id that is not in \<open>seen_ids\<close> is
  pushed with the next sequence number, and its id joins \<open>seen_ids\<close>.  The state of the
  loop is \<open>(seq, seen_ids, task_queue)\<close>.  An exception of \<open>get_priority\<close> leaves the loop
  (and \<open>main\<close>).
\<close>

fun enqueue_new ::
  "task list \<Rightarrow> nat \<times> string set \<times> entry list \<Rightarrow> py_error + (nat \<times> string set \<times> entry list)" where
  "enqueue_new [] st = Inr st"
| "enqueue_new (t # ts) (sq, seen, q) =
     (if has_id t \<and> the (task_id t) \<notin> seen then
        (case get_priority t of
           Inl err \<Rightarrow> Inl err
         | Inr prio \<Rightarrow>
             enqueue_new ts (Suc sq, insert (the (task_id t)) seen, heappush q (prio, sq, task_id t, t)))
      else enqueue_new ts (sq, seen, q))"

text \<open>
  The poll step, lines 157 to 175.  \<open>save_tasks\<close> runs only when an id was assigned;
  otherwise the list written would be the list read, so \<open>task_file\<close> is the list after the
  first loop in both cases.
\<close>

definition poll :: "env \<Rightarrow> watcher \<Rightarrow> (py_error + watcher) option" where
  "poll ev w =
     (case assign_ids (random_suffix ev) (task_file w) (existing_ids (task_file w)) (tick w) of
        None \<Rightarrow> None
      | Some (tasks, ids, n) \<Rightarrow>
          Some (case enqueue_new tasks (seq w, seen_ids w, task_queue w) of
                  Inl err \<Rightarrow> Inl err
                | Inr (sq, seen, q) \<Rightarrow>
                    Inr (w\<lparr>task_file := tasks, seq := sq, seen_ids := seen, task_queue := q, tick := n\<rparr>)))"

subsection \<open>Finishing a task\<close>

text \<open>
  \<open>append_completed_task\<close> writes the completed store with the task, as it is at the
  time of the call, at the end.  The three lines that follow it at each of its calls
  remove the task's id from the pending store and from \<open>seen_ids\<close>.
\<close>

definition append_completed_task :: "watcher \<Rightarrow> task \<Rightarrow> watcher" where
  "append_completed_task w t = w\<lparr>completed_file := completed_file w @ [t]\<rparr>"

definition discard :: "string option \<Rightarrow> string set \<Rightarrow> string set" where
  "discard tid ids = (case tid of None \<Rightarrow> ids | Some s \<Rightarrow> ids - {s})"

definition finalize :: "watcher \<Rightarrow> task \<Rightarrow> watcher" where
  "finalize w t =
     (let w1 = append_completed_task w t
      in w1\<lparr>task_file := filter (\<lambda>x. task_id x \<noteq> task_id t) (task_file w1),
             seen_ids := discard (task_id t) (seen_ids w1)\<rparr>)"

subsection \<open>The execution and retry loop\<close>

definition SUCCESS_MARK :: string where
  "SUCCESS_MARK = [CHR 0xE2, CHR 0x9C, CHR 0x85]"

definition NO_PROGRESS :: string where
  "NO_PROGRESS = [CHR 0xE2, CHR 0x9D, CHR 0x8C] @ '' No progress detected.''"

definition startswith :: "string \<Rightarrow> string \<Rightarrow> bool" where
  "startswith s m = (take (length m) s = m)"

definition append_attempt :: "task \<Rightarrow> attempt_info \<Rightarrow> task" where
  "append_attempt t a =
     t\<lparr>attempts_info := Some ((case attempts_info t of None \<Rightarrow> [] | Some xs \<Rightarrow> xs) @ [a])\<rparr>"

text \<open>
  One pass through the body of the \<open>while\<close> loop, lines 221 to 282.  The result is the
  watcher state, the task dictionary and the flag \<open>success\<close> after the pass.  The answer
  of \<open>execute_task_with_orchestrator\<close> is not used by the loop, and the call catches its
  own exceptions; the running-task file is written before it and removed after it.
\<close>

definition attempt_step :: "env \<Rightarrow> watcher \<Rightarrow> task \<Rightarrow> py_error + (watcher \<times> task \<times> bool)" where
  "attempt_step ev w t =
     (case (payload t, attempts t) of
        (Present p, Some a) \<Rightarrow>
          (case task_text p of
             None \<Rightarrow> Inl KeyError
           | Some txt \<Rightarrow>
               (let w1 = w\<lparr>running_file := Some t\<rparr>;
                    w2 = w1\<lparr>running_file := None\<rparr>;
                    answer = evaluate_and_replan_with_llm ev (tick w2) txt;
                    w3 = w2\<lparr>tick := Suc (tick w2)\<rparr>;
                    eval_result = (if answer = [] then NO_PROGRESS else answer);
                    info = \<lparr>try_num = a + 1, info_refined_task = refined_task p,
                            evaluation_result = eval_result, replanned_task = None,
                            refined_replan_task = None\<rparr>
                in if startswith eval_result SUCCESS_MARK then
                     (let t1 = t\<lparr>status := Some ''Success''\<rparr>;
                          w4 = finalize w3 t1
                      in Inr (w4, append_attempt t1 info, True))
                   else
                     (let info1 = info\<lparr>replanned_task := Some eval_result\<rparr>;
                          refined_replan = refine_replan_task ev (tick w3) eval_result;
                          w4 = w3\<lparr>tick := Suc (tick w3)\<rparr>;
                          p1 = (if refined_replan \<noteq> [] then p\<lparr>task_text := Some refined_replan\<rparr>
                                else p\<lparr>task_text := Some eval_result\<rparr>);
                          info2 = (if refined_replan \<noteq> []
                                   then info1\<lparr>refined_replan_task := Some refined_replan\<rparr> else info1);
                          t1 = t\<lparr>payload := Present p1, attempts := Some (a + 1)\<rparr>
                      in if a + 1 \<ge> MAX_ATTEMPTS ev then
                           (let t2 = t1\<lparr>status := Some ''Failed''\<rparr>;
                                w5 = finalize w4 t2
                            in Inr (w5, append_attempt t2 info2, False))
                         else Inr (w4, append_attempt t1 info2, False))))
      | (Present p, None) \<Rightarrow> Inl KeyError
      | (Missing, _) \<Rightarrow> Inl KeyError
      | (Null, _) \<Rightarrow> Inl TypeError)"

text \<open>The condition of the \<open>while\<close> loop, line 220.\<close>

definition loop_cond :: "env \<Rightarrow> task \<Rightarrow> bool \<Rightarrow> bool" where
  "loop_cond ev t success =
     (case attempts t of None \<Rightarrow> False | Some a \<Rightarrow> a < MAX_ATTEMPTS ev \<and> \<not> success)"

function retry_loop :: "env \<Rightarrow> watcher \<Rightarrow> task \<Rightarrow> bool \<Rightarrow> py_error + (watcher \<times> task)" where
  "retry_loop ev w t success =
     (if attempts t = None then Inl KeyError
      else if loop_cond ev t success then
        (case attempt_step ev w t of
           Inl err \<Rightarrow> Inl err
         | Inr (w', t', success') \<Rightarrow> retry_loop ev w' t' success')
      else Inr (w, t))"
  by pat_completeness auto
termination
proof (relation "measure (\<lambda>(ev, w, t, success).
          if success then 0 else Suc (nat (MAX_ATTEMPTS ev - (case attempts t of None \<Rightarrow> 0 | Some a \<Rightarrow> a))))",
       goal_cases)
  case 1
  show ?case by simp
next
  case (2 ev w t success x w' y t' success')
  from 2 show ?case
    by (auto simp: loop_cond_def attempt_step_def append_attempt_def Let_def
             split: option.splits field.splits if_splits)
qed

declare retry_loop.simps [simp del]

subsection \<open>One cycle of the main loop\<close>

text \<open>
  What happens to a popped entry, lines 185 to 282: the one-time refinement and then
  the retry loop.  An empty refinement costs an attempt; the task is pushed again with
  a new sequence number, or finished as failed when no attempt is left, and the cycle
  ends (\<open>continue\<close>).  A null payload makes \<open>payload.get\<close> raise; a missing one is
  the empty dictionary until \<open>task["payload"]\<close> is read.
\<close>

definition process_popped :: "env \<Rightarrow> watcher \<Rightarrow> entry \<Rightarrow> py_error + watcher" where
  "process_popped ev w e =
     (let prio = entry_prio e;
          t = (entry_task e)\<lparr>attempts :=
                 Some (case attempts (entry_task e) of None \<Rightarrow> 0 | Some a \<Rightarrow> a)\<rparr>;
          tid = task_id t
      in case payload t of
           Null \<Rightarrow> Inl AttributeError
         | pl \<Rightarrow>
             (let dict = (case pl of Present p \<Rightarrow> Some p | _ \<Rightarrow> None);
                  txt = (case dict of
                           Some p \<Rightarrow> (case task_text p of Some s \<Rightarrow> s | None \<Rightarrow> [])
                         | None \<Rightarrow> []);
                  is_refined = (case dict of Some p \<Rightarrow> refined p | None \<Rightarrow> False)
              in if \<not> is_refined then
                   (let answer = refine_task ev (tick w) txt;
                        w1 = w\<lparr>tick := Suc (tick w)\<rparr>
                    in if answer = [] then
                         (let a1 = the (attempts t) + 1;
                              t1 = t\<lparr>attempts := Some a1\<rparr>
                          in if a1 < MAX_ATTEMPTS ev then
                               Inr (w1\<lparr>seq := Suc (seq w1),
                                       task_queue := heappush (task_queue w1) (prio, seq w1, tid, t1)\<rparr>)
                             else Inr (finalize w1 (t1\<lparr>status := Some ''Failed (empty refinement)''\<rparr>)))
                       else
                         (case dict of
                            None \<Rightarrow> Inl KeyError
                          | Some p \<Rightarrow>
                              (let p1 = p\<lparr>original_task :=
                                            (case original_task p of None \<Rightarrow> Some txt | Some orig \<Rightarrow> Some orig),
                                          refined_task := Some answer,
                                          task_text := Some answer,
                                          refined := True\<rparr>
                               in map_sum id fst (retry_loop ev w1 (t\<lparr>payload := Present p1\<rparr>) False))))
                 else map_sum id fst (retry_loop ev w t False)))"

text \<open>
  One iteration of \<open>while not _stop\<close>, lines 157 to 289: the poll, then, when the queue
  is not empty and the orchestrator answers the health probe, one pop and its
  processing.
\<close>

definition cycle :: "env \<Rightarrow> watcher \<Rightarrow> (py_error + watcher) option" where
  "cycle ev w =
     (case poll ev w of
        None \<Rightarrow> None
      | Some (Inl err) \<Rightarrow> Some (Inl err)
      | Some (Inr w1) \<Rightarrow>
          Some (if task_queue w1 \<noteq> [] then
                  (let w2 = w1\<lparr>idle_state := False\<rparr>;
                       healthy = check_orchestrator_health ev (tick w2);
                       w3 = w2\<lparr>tick := Suc (tick w2)\<rparr>
                   in if healthy then
                        (case heappop (task_queue w3) of
                           None \<Rightarrow> Inr w3
                         | Some (e, q) \<Rightarrow> process_popped ev (w3\<lparr>task_queue := q\<rparr>) e)
                      else Inr w3)
                else Inr (w1\<lparr>idle_state := True\<rparr>)))"

section \<open>The delegator (agents/supervisors/delegator)\<close>

subsection \<open>Wire types\<close>

text \<open>
  Modelled from the spec: the types of the \<open>a2a\<close> library, which the repository imports
  and does not contain.  A task state is one of the seven of the spec's closed set.  A
  reply is a sequence of parts; a part is a wrapper whose \<open>root\<close> is a text part, a data
  part or a file part, told apart by \<open>root.kind\<close>.  \<open>OtherPart k\<close> stands for a root of
  any other kind \<open>k\<close>.  The file of a file part carries either its content, base64
  encoded, or a URI in its place: \<open>extract_content\<close> in app/state/host\_agent\_service.py
  distinguishes the two with \<open>isinstance(p.file, FileWithBytes)\<close>.
\<close>

datatype task_state = submitted | working | input_required | completed | canceled | failed | unknown

type_synonym data = "(string \<times> jvalue) list"

datatype file_content =
    FileWithBytes (file_name: "string option") (mimeType: "string option") (bytes: string)
  | FileWithUri (file_name: "string option") (mimeType: "string option") (uri: string)

datatype part_root = TextPart string | DataPart data | FilePart file_content | OtherPart string

datatype part = Part (root: part_root)

datatype message = Message (parts: "part list")

record remote_task =
  task_ident :: string
  contextId :: string
  status_state :: task_state
  status_message :: "message option"
  artifacts :: "part list list option"

record jsonrpc_error =
  error_code :: int
  error_message :: string

text \<open>
  What a streaming worker sends: error responses and results.  A result is a message,
  a task, a status update (the only event with a \<open>final\<close> attribute) or an artifact
  update; \<open>Result None\<close> is a response whose result is empty (false in Python).
\<close>

datatype event =
    MessageEvent message
  | TaskEvent remote_task
  | TaskStatusUpdateEvent (final: bool) task_state
  | TaskArtifactUpdateEvent "part list"

datatype response = JSONRPCErrorResponse jsonrpc_error | Result "event option"

text \<open>The single response of a worker that does not stream: an error, a message or a task.\<close>

datatype unary_response = UnaryError jsonrpc_error | UnaryMessage message | UnaryTask remote_task

record agent_card =
  card_name :: string
  streaming :: bool

text \<open>
  The request the coordinator builds, and a worker: its card and what it answers to a
  request, as a finite stream and as a single response (the card says which is asked
  for).
\<close>

record request =
  messageId :: string
  request_contextId :: "string option"
  request_taskId :: "string option"
  request_text :: string

record worker =
  card :: agent_card
  stream_reply :: "request \<Rightarrow> response list"
  unary_reply :: "request \<Rightarrow> unary_response"

text \<open>
  The task callback merges an event into the caller's task store and returns the task;
  \<open>'s\<close> is the state of that store.
\<close>

type_synonym 's task_callback = "'s \<Rightarrow> event \<Rightarrow> agent_card \<Rightarrow> remote_task \<times> 's"

subsection \<open>The remote task client (remote\_agent\_connection.py)\<close>

text \<open>What \<open>RemoteAgentConnections.send_message\<close> returns.\<close>

datatype client_result =
    ErrorResult jsonrpc_error
  | MessageResult message
  | TaskResult remote_task
  | NoResult

definition result_of :: "remote_task option \<Rightarrow> client_result" where
  "result_of t = (case t of None \<Rightarrow> NoResult | Some x \<Rightarrow> TaskResult x)"

definition is_final :: "event option \<Rightarrow> bool" where
  "is_final ev = (case ev of Some (TaskStatusUpdateEvent fin st) \<Rightarrow> fin | _ \<Rightarrow> False)"

text \<open>
  The streaming branch, lines 65 to 86.  The arguments are the callback, the card, the
  responses not yet read, the local variable \<open>task\<close>, the state of the callback's store
  and the number of responses read so far; the result is what is returned, the number
  of responses read, and the store.
\<close>

fun stream_loop ::
  "'s task_callback option \<Rightarrow> agent_card \<Rightarrow> response list \<Rightarrow> remote_task option \<Rightarrow> 's \<Rightarrow> nat
     \<Rightarrow> client_result \<times> nat \<times> 's" where
  "stream_loop cb c [] task s n = (result_of task, n, s)"
| "stream_loop cb c (JSONRPCErrorResponse err # rs) task s n = (ErrorResult err, Suc n, s)"
| "stream_loop cb c (Result (Some (MessageEvent m)) # rs) task s n = (MessageResult m, Suc n, s)"
| "stream_loop cb c (Result ev # rs) task s n =
     (let (task', s') =
            (case (cb, ev) of
               (Some f, Some e) \<Rightarrow> (let (t, s1) = f s e c in (Some t, s1))
             | _ \<Rightarrow> (task, s))
      in if is_final ev then (result_of task', Suc n, s')
         else stream_loop cb c rs task' s' (Suc n))"

text \<open>
  A response after which the loop reads the next one: a result that is neither a
  message nor marked final.
\<close>

definition keeps_reading :: "response \<Rightarrow> bool" where
  "keeps_reading r =
     (case r of
        JSONRPCErrorResponse err \<Rightarrow> False
      | Result (Some (MessageEvent m)) \<Rightarrow> False
      | Result ev \<Rightarrow> \<not> is_final ev)"

text \<open>The other branch, lines 89 to 102: one request, one response.\<close>

definition unary_send :: "'s task_callback option \<Rightarrow> agent_card \<Rightarrow> unary_response \<Rightarrow> 's \<Rightarrow> client_result \<times> 's" where
  "unary_send cb c r s =
     (case r of
        UnaryError err \<Rightarrow> (ErrorResult err, s)
      | UnaryMessage m \<Rightarrow> (MessageResult m, s)
      | UnaryTask t \<Rightarrow>
          (case cb of
             None \<Rightarrow> (TaskResult t, s)
           | Some f \<Rightarrow> (TaskResult t, snd (f s (TaskEvent t) c))))"

definition client_send_message ::
  "worker \<Rightarrow> request \<Rightarrow> 's task_callback option \<Rightarrow> 's \<Rightarrow> client_result \<times> nat \<times> 's" where
  "client_send_message wk req cb s =
     (if streaming (card wk) then stream_loop cb (card wk) (stream_reply wk req) None s 0
      else (let (r, s') = unary_send cb (card wk) (unary_reply wk req) s in (r, 1, s')))"

subsection \<open>Converting parts (agent.py, lines 308 to 333)\<close>

text \<open>
  The session state of the tool context, with its actions and the artifacts saved so
  far.  An entry of the state dictionary that is \<open>None\<close> here is absent.
\<close>

record tool_context =
  state_agent :: "string option"
  state_task_id :: "string option"
  state_context_id :: "string option"
  state_message_id :: "string option"
  session_active :: "bool option"
  skip_summarization :: bool
  escalate :: bool
  saved_artifacts :: "(string option \<times> string option \<times> string) list"

text \<open>
  What a converted part is: the text of a text part, the dictionary of a data part, or
  the \<open>DataPart\<close> object that refers to a saved artifact.
\<close>

datatype converted = OutText string | OutData data | OutArtifact data

definition file_id_value :: "string option \<Rightarrow> jvalue" where
  "file_id_value n = (case n of None \<Rightarrow> JNull | Some s \<Rightarrow> JStr s)"

text \<open>
  \<^verbatim>\<open>
  async def convert_part(part: Part, tool_context: ToolContext):
      if part.root.kind == "text":
          return part.root.text
      elif part.root.kind == "data":
          return part.root.data
      elif part.root.kind == "file":
          file_id = part.root.file.name
          file_bytes = base64.b64decode(part.root.file.bytes)
          file_part = types.Part(
              inline_data=types.Blob(mime_type=part.root.file.mimeType, data=file_bytes))
          tool_context.save_artifact(file_id, file_part)
          tool_context.actions.skip_summarization = True
          tool_context.actions.escalate = True
          return DataPart(data={"artifact-file-id": file_id})
      return f"Unknown type: {part.kind}"
  \<close>
  \<open>b64decode\<close> is the library's decoder, \<open>None\<close> where it raises.  A file given by a URI
  has no attribute \<open>bytes\<close>, so reading it raises \<open>AttributeError\<close>.  The last line reads
  \<open>kind\<close> from the wrapper and not from its root, where every other line reads it; the
  wrapper has no such attribute, so this read raises \<open>AttributeError\<close> too.
\<close>

definition convert_part ::
  "(string \<Rightarrow> string option) \<Rightarrow> part \<Rightarrow> tool_context \<Rightarrow> (py_error + converted) \<times> tool_context" where
  "convert_part b64decode p tc =
     (case root p of
        TextPart txt \<Rightarrow> (Inr (OutText txt), tc)
      | DataPart d \<Rightarrow> (Inr (OutData d), tc)
      | FilePart (FileWithBytes file_id mime b) \<Rightarrow>
          (case b64decode b of
             None \<Rightarrow> (Inl BinasciiError, tc)
           | Some file_bytes \<Rightarrow>
               (Inr (OutArtifact [(''artifact-file-id'', file_id_value file_id)]),
                tc\<lparr>saved_artifacts := saved_artifacts tc @ [(file_id, mime, file_bytes)],
                   skip_summarization := True, escalate := True\<rparr>))
      | FilePart (FileWithUri file_id mime u) \<Rightarrow> (Inl AttributeError, tc)
      | OtherPart k \<Rightarrow> (Inl AttributeError, tc))"

fun convert_parts ::
  "(string \<Rightarrow> string option) \<Rightarrow> part list \<Rightarrow> tool_context \<Rightarrow> (py_error + converted list) \<times> tool_context" where
  "convert_parts b64decode [] tc = (Inr [], tc)"
| "convert_parts b64decode (p # ps) tc =
     (case convert_part b64decode p tc of
        (Inl err, tc1) \<Rightarrow> (Inl err, tc1)
      | (Inr v, tc1) \<Rightarrow>
          (case convert_parts b64decode ps tc1 of
             (Inl err, tc2) \<Rightarrow> (Inl err, tc2)
           | (Inr vs, tc2) \<Rightarrow> (Inr (v # vs), tc2)))"

subsection \<open>The session coordinator (\<open>HostAgent.send_message\<close>, agent.py, lines 210 to 305)\<close>

text \<open>\<open>str\<close> of an integer, for the error code in a message.\<close>

definition digit_char :: "nat \<Rightarrow> char" where
  "digit_char d = ''0123456789'' ! d"

fun str_nat :: "nat \<Rightarrow> string" where
  "str_nat n = (if n < 10 then [digit_char n] else str_nat (n div 10) @ [digit_char (n mod 10)])"

declare str_nat.simps [simp del]

definition str_int :: "int \<Rightarrow> string" where
  "str_int i = (if i < 0 then CHR ''-'' # str_nat (nat (- i)) else str_nat (nat i))"

text \<open>The texts of the three \<open>ValueError\<close>s that name the worker.\<close>

definition returned_an_error :: "string \<Rightarrow> jsonrpc_error \<Rightarrow> string" where
  "returned_an_error agent_name err =
     ''Agent '' @ [CHR 0x27] @ agent_name @ [CHR 0x27] @ '' returned an error: '' @ error_message err
       @ '' (Code: '' @ str_int (error_code err) @ '')''"

definition is_cancelled :: "string \<Rightarrow> remote_task \<Rightarrow> string" where
  "is_cancelled agent_name t = ''Agent '' @ agent_name @ '' task '' @ task_ident t @ '' is cancelled''"

definition has_failed :: "string \<Rightarrow> remote_task \<Rightarrow> string" where
  "has_failed agent_name t = ''Agent '' @ agent_name @ '' task '' @ task_ident t @ '' failed''"

text \<open>Lines 297 to 305: the parts of the status message, then those of every artifact.\<close>

fun convert_artifacts ::
  "(string \<Rightarrow> string option) \<Rightarrow> part list list \<Rightarrow> tool_context \<Rightarrow> (py_error + converted list) \<times> tool_context" where
  "convert_artifacts b64decode [] tc = (Inr [], tc)"
| "convert_artifacts b64decode (a # as) tc =
     (case convert_parts b64decode a tc of
        (Inl err, tc1) \<Rightarrow> (Inl err, tc1)
      | (Inr vs, tc1) \<Rightarrow>
          (case convert_artifacts b64decode as tc1 of
             (Inl err, tc2) \<Rightarrow> (Inl err, tc2)
           | (Inr ws, tc2) \<Rightarrow> (Inr (vs @ ws), tc2)))"

definition collect_outputs ::
  "(string \<Rightarrow> string option) \<Rightarrow> remote_task \<Rightarrow> tool_context \<Rightarrow> (py_error + converted list) \<times> tool_context" where
  "collect_outputs b64decode t tc =
     (case convert_parts b64decode (case status_message t of None \<Rightarrow> [] | Some m \<Rightarrow> parts m) tc of
        (Inl err, tc1) \<Rightarrow> (Inl err, tc1)
      | (Inr vs, tc1) \<Rightarrow>
          (case convert_artifacts b64decode (case artifacts t of None \<Rightarrow> [] | Some as \<Rightarrow> as) tc1 of
             (Inl err, tc2) \<Rightarrow> (Inl err, tc2)
           | (Inr ws, tc2) \<Rightarrow> (Inr (vs @ ws), tc2)))"

text \<open>
  \<open>HostAgent.send_message\<close>.  \<open>connections\<close> is the registry \<open>remote_agent_connections\<close>,
  \<open>uuid\<close> the fresh identifier taken when the state has no \<open>message_id\<close>.  The state is
  a mutable object, so what was written to it before an exception stays written: the
  result is the returned list or the exception, together with the tool context and the
  callback's store.  With no result at all (\<open>None\<close> from the client) the read of
  \<open>task.status\<close> raises \<open>AttributeError\<close>.
\<close>

definition build_request :: "string \<Rightarrow> string \<Rightarrow> tool_context \<Rightarrow> request" where
  "build_request uuid msg tc =
     \<lparr>messageId = (case state_message_id tc of
                        None \<Rightarrow> uuid
                      | Some m \<Rightarrow> if m = [] then uuid else m),
      request_contextId = state_context_id tc,
      request_taskId = state_task_id tc,
      request_text = msg\<rparr>"

definition send_message ::
  "(string \<Rightarrow> worker option) \<Rightarrow> 's task_callback option \<Rightarrow> (string \<Rightarrow> string option) \<Rightarrow> string
     \<Rightarrow> string \<Rightarrow> string \<Rightarrow> tool_context \<Rightarrow> 's \<Rightarrow> (py_error + converted list) \<times> tool_context \<times> 's" where
  "send_message connections task_callback b64decode uuid agent_name msg tc s =
     (case connections agent_name of
        None \<Rightarrow> (Inl (ValueError (''Agent '' @ agent_name @ '' not found'')), tc, s)
      | Some client \<Rightarrow>
          (let tc1 = tc\<lparr>state_agent := Some agent_name\<rparr>;
               (response, n, s1) = client_send_message client (build_request uuid msg tc1) task_callback s
           in case response of
                ErrorResult err \<Rightarrow>
                  (Inl (ValueError (returned_an_error agent_name err)),
                   tc1\<lparr>session_active := Some False\<rparr>, s1)
              | MessageResult m \<Rightarrow>
                  (let (r, tc2) = convert_parts b64decode (parts m) tc1 in (r, tc2, s1))
              | NoResult \<Rightarrow> (Inl AttributeError, tc1, s1)
              | TaskResult t \<Rightarrow>
                  (let tc2 = tc1\<lparr>session_active :=
                                    Some (status_state t \<notin> set [completed, canceled, failed, unknown]),
                                  state_context_id :=
                                    (if contextId t \<noteq> [] then Some (contextId t) else state_context_id tc1),
                                  state_task_id := Some (task_ident t)\<rparr>
                   in if status_state t = input_required then
                        (let (r, tc3) = collect_outputs b64decode t
                                          (tc2\<lparr>skip_summarization := True, escalate := True\<rparr>)
                         in (r, tc3, s1))
                      else if status_state t = canceled then
                        (Inl (ValueError (is_cancelled agent_name t)), tc2, s1)
                      else if status_state t = failed then
                        (Inl (ValueError (has_failed agent_name t)), tc2, s1)
                      else (let (r, tc3) = collect_outputs b64decode t tc2 in (r, tc3, s1)))))"

section \<open>The process supervisor (start.py)\<close>

text \<open>
  Time is counted in seconds from the call of \<open>graceful_terminate\<close>.  A child process
  is given by what it does with a signal: \<open>exits_after p sig = Some d\<close> when it exits
  \<open>d\<close> seconds after receiving \<open>sig\<close>, \<open>None\<close> when it ignores \<open>sig\<close>.  \<open>exit_at\<close> is the
  time at which the process is gone, once that is settled; \<open>p.returncode is None\<close> holds
  at a time before it.
\<close>

datatype signal = SIGINT | SIGTERM | SIGKILL

record process =
  exits_after :: "signal \<Rightarrow> nat option"
  exit_at :: "nat option"

definition running :: "nat \<Rightarrow> process \<Rightarrow> bool" where
  "running now p = (case exit_at p of None \<Rightarrow> True | Some e \<Rightarrow> now < e)"

definition deliver :: "nat \<Rightarrow> signal \<Rightarrow> process \<Rightarrow> process" where
  "deliver now sig p =
     (case exits_after p sig of
        None \<Rightarrow> p
      | Some d \<Rightarrow> p\<lparr>exit_at := Some (case exit_at p of None \<Rightarrow> now + d | Some e \<Rightarrow> min e (now + d))\<rparr>)"

text \<open>
  One \<open>for p in reversed(procs)\<close> loop: the signal goes to every process that is still
  running, the last started first.  The result is the processes and the signals
  sent, in the order of sending, each with its time and the index of its process in
  \<open>procs\<close>; the argument \<open>i\<close> is the index of the head of the list.
\<close>

fun send_signals :: "nat \<Rightarrow> signal \<Rightarrow> nat \<Rightarrow> process list \<Rightarrow> process list \<times> (nat \<times> signal \<times> nat) list" where
  "send_signals now sig i [] = ([], [])"
| "send_signals now sig i (p # ps) =
     (let (ps', sent) = send_signals now sig (Suc i) ps
      in if running now p then (deliver now sig p # ps', sent @ [(now, sig, i)])
         else (p # ps', sent))"

text \<open>
  \<open>await asyncio.wait([... p.wait() for p in procs], timeout=t)\<close> returns when every
  process is gone or when \<open>t\<close> seconds have passed, whichever is first.  The result is
  the time at which it returns.
\<close>

definition wait_all :: "nat \<Rightarrow> nat \<Rightarrow> process list \<Rightarrow> nat" where
  "wait_all now t procs =
     (if list_all (\<lambda>p. exit_at p \<noteq> None) procs
      then min (now + t) (max now (fold max (map (\<lambda>p. the (exit_at p)) procs) 0))
      else now + t)"

text \<open>
  \<open>graceful_terminate(procs, force_now)\<close>, lines 229 to 305, on Unix.  The two waits
  have the timeouts 8 and 6 written in the code.
\<close>

definition graceful_terminate :: "process list \<Rightarrow> bool \<Rightarrow> (nat \<times> signal \<times> nat) list" where
  "graceful_terminate procs force_now =
     (if force_now then snd (send_signals 0 SIGKILL 0 procs)
      else
        (let (procs1, sent1) = send_signals 0 SIGINT 0 procs;
             t1 = wait_all 0 8 procs1;
             (procs2, sent2) = send_signals t1 SIGTERM 0 procs1;
             t2 = wait_all t1 6 procs2;
             (procs3, sent3) = send_signals t2 SIGKILL 0 procs2
         in sent1 @ sent2 @ sent3))"

text \<open>
  The command line as \<open>main\<close> parses it, and the shutdown at lines 645 to 648.  \<open>main\<close>
  passes the process list and the force flag to \<open>graceful_terminate\<close> and nothing else:
  \<open>args.grace_int\<close> and \<open>args.grace_term\<close> are parsed and not read again.
\<close>

record args =
  grace_int :: nat
  grace_term :: nat

definition shutdown :: "args \<Rightarrow> bool \<Rightarrow> process list \<Rightarrow> (nat \<times> signal \<times> nat) list" where
  "shutdown a force_kill procs = graceful_terminate procs force_kill"

text \<open>The times at which a process is sent a signal.\<close>

definition times_of :: "signal \<Rightarrow> nat \<Rightarrow> (nat \<times> signal \<times> nat) list \<Rightarrow> nat list" where
  "times_of sig i sent = map fst (filter (\<lambda>(t, s, j). s = sig \<and> j = i) sent)"

section \<open>Example inputs\<close>

text \<open>
  Concrete inputs on which the theorems below are instantiated: an environment whose
  evaluator never reports success, one whose evaluator reports success at once, and
  tasks as the dashboard's \<open>add_task\<close> writes them.
\<close>

definition failing_env :: env where
  "failing_env =
     \<lparr>MAX_ATTEMPTS = 3, random_suffix = (\<lambda>n. ''ab12''), check_orchestrator_health = (\<lambda>n. True),
      refine_task = (\<lambda>n s. s), evaluate_and_replan_with_llm = (\<lambda>n s. ''no progress''),
      refine_replan_task = (\<lambda>n s. ''try again'')\<rparr>"

definition succeeding_env :: env where
  "succeeding_env = failing_env\<lparr>evaluate_and_replan_with_llm := (\<lambda>n s. SUCCESS_MARK @ '' done'')\<rparr>"

definition new_task :: "string option \<Rightarrow> string \<Rightarrow> task" where
  "new_task tid urg =
     \<lparr>task_id = tid, kind = Some ''generic_task'',
      payload = Present \<lparr>urgency = Some (JStr urg), task_text = Some ''ping worker A'',
                         original_task = None, refined_task = None, refined = False\<rparr>,
      attempts = None, status = None, attempts_info = None\<rparr>"

definition five_tasks :: "task list" where
  "five_tasks =
     [new_task (Some ''Task-a'') ''low'', new_task (Some ''Task-b'') ''urgent'',
      new_task (Some ''Task-c'') ''High'', new_task (Some ''Task-d'') ''urgent'',
      new_task (Some ''Task-e'') ''medium'']"

text \<open>A process that ignores interrupt and terminate, and one that leaves on interrupt.\<close>

definition stubborn :: process where
  "stubborn = \<lparr>exits_after = (\<lambda>sig. if sig = SIGKILL then Some 0 else None), exit_at = None\<rparr>"

definition obliging :: process where
  "obliging = \<lparr>exits_after = (\<lambda>sig. Some 1), exit_at = None\<rparr>"

text \<open>
  A worker that streams two \<open>working\<close> updates, then a message, then one more update; a
  worker that answers a single request with an error; a callback that counts the
  events it is given.
\<close>

definition greeting :: message where
  "greeting = Message [Part (TextPart ''hello'')]"

definition working_then_message :: "response list" where
  "working_then_message =
     [Result (Some (TaskStatusUpdateEvent False working)),
      Result (Some (TaskStatusUpdateEvent False working)),
      Result (Some (MessageEvent greeting)),
      Result (Some (TaskStatusUpdateEvent True completed))]"

definition internal_error :: jsonrpc_error where
  "internal_error = \<lparr>error_code = - 32603, error_message = ''Internal error''\<rparr>"

definition streaming_worker :: "response list \<Rightarrow> worker" where
  "streaming_worker rs =
     \<lparr>card = \<lparr>card_name = ''Describer Agent'', streaming = True\<rparr>,
      stream_reply = (\<lambda>req. rs), unary_reply = (\<lambda>req. UnaryMessage greeting)\<rparr>"

definition unary_worker :: "unary_response \<Rightarrow> worker" where
  "unary_worker r =
     \<lparr>card = \<lparr>card_name = ''Describer Agent'', streaming = False\<rparr>,
      stream_reply = (\<lambda>req. []), unary_reply = (\<lambda>req. r)\<rparr>"

definition task_in :: "task_state \<Rightarrow> string \<Rightarrow> remote_task" where
  "task_in st ctx =
     \<lparr>task_ident = ''t-1'', contextId = ctx, status_state = st,
      status_message = Some greeting, artifacts = None\<rparr>"

definition counting_callback :: "nat task_callback" where
  "counting_callback n ev c = (task_in working ''ctx-1'', Suc n)"

definition fresh_context :: tool_context where
  "fresh_context =
     \<lparr>state_agent = None, state_task_id = None, state_context_id = None, state_message_id = None,
      session_active = Some True, skip_summarization = False, escalate = False, saved_artifacts = []\<rparr>"

definition registry :: "worker \<Rightarrow> string \<Rightarrow> worker option" where
  "registry wk nm = (if nm = ''Describer Agent'' then Some wk else None)"

section \<open>Properties of the task watcher\<close>

subsection \<open>Priorities\<close>

lemmas lower_simps = lower_def lower_char_def ascii_uppercase_def ascii_lowercase_def

lemma priority_of_string_medium: "priority_of_string ''medium'' = 2"
  by (simp add: priority_of_string_def PRIORITY_ORDER_def lower_simps)

text \<open>
  Claim C10.  A task with no \<open>urgency\<close> (no payload, a null payload, or a payload without
  the key), and a task whose \<open>urgency\<close> is a string that in small letters is no key of
  \<open>PRIORITY_ORDER\<close>, gets the priority of \<open>medium\<close>.  A string that in small letters is a
  key gets the rank of that key, in whatever case it is written.
\<close>

theorem get_priority_defaults_to_medium:
  "(payload_urgency t = None \<or>
      (\<exists>s. payload_urgency t = Some (JStr s) \<and> lower s \<notin> set (map fst PRIORITY_ORDER))
    \<longrightarrow> get_priority t = Inr (the (map_of PRIORITY_ORDER ''medium'')))
   \<and> (\<forall>s k r. payload_urgency t = Some (JStr s) \<and> lower s = k \<and> (k, r) \<in> set PRIORITY_ORDER
        \<longrightarrow> get_priority t = Inr r)"
proof (intro conjI impI allI)
  assume "payload_urgency t = None \<or>
      (\<exists>s. payload_urgency t = Some (JStr s) \<and> lower s \<notin> set (map fst PRIORITY_ORDER))"
  then show "get_priority t = Inr (the (map_of PRIORITY_ORDER ''medium''))"
  proof
    assume "payload_urgency t = None"
    then show ?thesis
      by (simp add: get_priority_def priority_of_string_medium) (simp add: PRIORITY_ORDER_def)
  next
    assume "\<exists>s. payload_urgency t = Some (JStr s) \<and> lower s \<notin> set (map fst PRIORITY_ORDER)"
    then obtain s where s: "payload_urgency t = Some (JStr s)"
      and out: "lower s \<notin> set (map fst PRIORITY_ORDER)"
      by blast
    from out have "map_of PRIORITY_ORDER (lower s) = None"
      by (simp add: map_of_eq_None_iff)
    with s show ?thesis
      by (simp add: get_priority_def priority_of_string_def)
  qed
next
  fix s k r
  assume h: "payload_urgency t = Some (JStr s) \<and> lower s = k \<and> (k, r) \<in> set PRIORITY_ORDER"
  have "distinct (map fst PRIORITY_ORDER)"
    by (simp add: PRIORITY_ORDER_def)
  with h have "map_of PRIORITY_ORDER (lower s) = Some r"
    by simp
  with h show "get_priority t = Inr r"
    by (simp add: get_priority_def priority_of_string_def)
qed

theorem get_priority_defaults_to_medium_witness:
  "get_priority \<lparr>task_id = Some ''Task-1'', kind = None,
      payload = Present \<lparr>urgency = Some (JStr ''Whenever''), task_text = Some ''ping'',
        original_task = None, refined_task = None, refined = False\<rparr>,
      attempts = None, status = None, attempts_info = None\<rparr> = Inr 2
   \<and> get_priority \<lparr>task_id = Some ''Task-2'', kind = None, payload = Missing,
      attempts = None, status = None, attempts_info = None\<rparr> = Inr 2
   \<and> get_priority \<lparr>task_id = Some ''Task-3'', kind = None,
      payload = Present \<lparr>urgency = Some (JStr ''URGENT''), task_text = Some ''ping'',
        original_task = None, refined_task = None, refined = False\<rparr>,
      attempts = None, status = None, attempts_info = None\<rparr> = Inr 0"
  using get_priority_defaults_to_medium [of "\<lparr>task_id = Some ''Task-1'', kind = None,
      payload = Present \<lparr>urgency = Some (JStr ''Whenever''), task_text = Some ''ping'',
        original_task = None, refined_task = None, refined = False\<rparr>,
      attempts = None, status = None, attempts_info = None\<rparr>"]
    get_priority_defaults_to_medium [of "\<lparr>task_id = Some ''Task-2'', kind = None, payload = Missing,
      attempts = None, status = None, attempts_info = None\<rparr>"]
    get_priority_defaults_to_medium [of "\<lparr>task_id = Some ''Task-3'', kind = None,
      payload = Present \<lparr>urgency = Some (JStr ''URGENT''), task_text = Some ''ping'',
        original_task = None, refined_task = None, refined = False\<rparr>,
      attempts = None, status = None, attempts_info = None\<rparr>"]
  by (simp add: payload_urgency_def PRIORITY_ORDER_def lower_simps)

subsection \<open>The poll step\<close>

lemma generate_task_id_fresh:
  assumes "generate_task_id rnd ids n = Some r"
  shows "fst r \<noteq> [] \<and> fst r \<notin> ids"
  using assms
  apply (rule generate_task_id.raw_induct
      [where P = "\<lambda>rnd ids n r. fst r \<noteq> [] \<and> fst r \<notin> ids", rotated])
  apply (auto split: if_splits)
  done

lemma assign_ids_has_id:
  "assign_ids rnd ts ids n = Some (ts', ids', n') \<Longrightarrow> list_all has_id ts'"
proof (induction ts arbitrary: ids n ts' ids' n')
  case Nil
  then show ?case by simp
next
  case (Cons t ts)
  show ?case
  proof (cases "has_id t")
    case True
    with Cons.prems obtain us where "assign_ids rnd ts ids n = Some (us, ids', n')" and "ts' = t # us"
      by (auto split: option.splits)
    with Cons.IH True show ?thesis by auto
  next
    case False
    with Cons.prems obtain tid n1 us where g: "generate_task_id rnd ids n = Some (tid, n1)"
      and "assign_ids rnd ts (insert tid ids) n1 = Some (us, ids', n')"
      and "ts' = t\<lparr>task_id := Some tid\<rparr> # us"
      by (auto split: option.splits)
    with Cons.IH generate_task_id_fresh [OF g] show ?thesis
      by (auto simp: has_id_def)
  qed
qed

lemma assign_ids_fixed:
  "list_all has_id ts \<Longrightarrow> assign_ids rnd ts ids n = Some (ts, ids, n)"
  by (induction ts) auto

lemma enqueue_new_seen:
  "enqueue_new ts (sq, seen, q) = Inr (sq', seen', q') \<Longrightarrow>
     seen \<subseteq> seen' \<and> (\<forall>t \<in> set ts. has_id t \<longrightarrow> the (task_id t) \<in> seen')"
proof (induction ts arbitrary: sq seen q)
  case Nil
  then show ?case by simp
next
  case (Cons t ts)
  show ?case
  proof (cases "has_id t \<and> the (task_id t) \<notin> seen")
    case True
    with Cons.prems obtain prio where
      "enqueue_new ts (Suc sq, insert (the (task_id t)) seen, heappush q (prio, sq, task_id t, t))
         = Inr (sq', seen', q')"
      by (auto split: sum.splits)
    from Cons.IH [OF this] show ?thesis by auto
  next
    case False
    with Cons.prems have "enqueue_new ts (sq, seen, q) = Inr (sq', seen', q')"
      by auto
    from Cons.IH [OF this] False show ?thesis by auto
  qed
qed

lemma enqueue_new_fixed:
  "\<forall>t \<in> set ts. has_id t \<longrightarrow> the (task_id t) \<in> seen \<Longrightarrow>
     enqueue_new ts (sq, seen, q) = Inr (sq, seen, q)"
  by (induction ts) auto

text \<open>
  Claim C4.  A poll that returns leaves a state on which the next poll, with the pending
  store untouched in between, changes nothing at all: the queue, the sequence counter,
  the set of seen ids and the pending store with its ids stay as they are, whatever the
  random source would draw.
\<close>

theorem poll_idempotent:
  assumes "poll ev w = Some (Inr w')"
  shows "poll ev' w' = Some (Inr w')"
proof -
  from assms obtain tasks ids n sq seen q where
    a: "assign_ids (random_suffix ev) (task_file w) (existing_ids (task_file w)) (tick w) = Some (tasks, ids, n)"
    and e: "enqueue_new tasks (seq w, seen_ids w, task_queue w) = Inr (sq, seen, q)"
    and w': "w' = w\<lparr>task_file := tasks, seq := sq, seen_ids := seen, task_queue := q, tick := n\<rparr>"
    by (auto simp: poll_def split: option.splits sum.splits)
  from a have "list_all has_id tasks"
    by (rule assign_ids_has_id)
  then have a': "assign_ids (random_suffix ev') tasks (existing_ids tasks) n = Some (tasks, existing_ids tasks, n)"
    by (rule assign_ids_fixed)
  from enqueue_new_seen [OF e] have "\<forall>t \<in> set tasks. has_id t \<longrightarrow> the (task_id t) \<in> seen"
    by simp
  then have e': "enqueue_new tasks (sq, seen, q) = Inr (sq, seen, q)"
    by (rule enqueue_new_fixed)
  from a' e' w' show ?thesis
    by (simp add: poll_def)
qed

theorem poll_idempotent_witness:
  "\<exists>w'. poll failing_env (start_watcher [new_task None ''high'', new_task (Some ''Task-1'') ''low''] [])
          = Some (Inr w')
        \<and> poll succeeding_env w' = Some (Inr w')"
proof -
  have "generate_task_id (\<lambda>n. ''ab12'') {''Task-1''} 0 = Some (''Task-ab12'', Suc 0)"
    by (subst generate_task_id.simps) simp
  then have "\<exists>w'. poll failing_env
      (start_watcher [new_task None ''high'', new_task (Some ''Task-1'') ''low''] []) = Some (Inr w')"
    by (simp add: poll_def failing_env_def start_watcher_def new_task_def existing_ids_def
          has_id_def get_priority_def payload_urgency_def)
  then obtain w' where p: "poll failing_env
      (start_watcher [new_task None ''high'', new_task (Some ''Task-1'') ''low''] []) = Some (Inr w')"
    by blast
  from poll_idempotent [OF p, of succeeding_env] p show ?thesis
    by blast
qed

subsection \<open>The priority queue\<close>

lemma smallest_mem: "smallest m es \<in> set (m # es)"
  by (induction es arbitrary: m) auto

lemma smallest_least: "\<forall>x \<in> set (m # es). \<not> entry_less x (smallest m es)"
proof (induction es arbitrary: m)
  case Nil
  show ?case by (simp add: entry_less_def)
next
  case (Cons e es)
  from Cons.IH [of "if entry_less e m then e else m"] show ?case
    by (auto simp: entry_less_def split: if_splits)
qed

lemma heappop_Some:
  assumes "heappop q = Some (m, q')"
  shows "m \<in> set q" and "q' = remove1 m q" and "\<forall>x \<in> set q. \<not> entry_less x m"
proof -
  from assms obtain e es where q: "q = e # es"
    by (cases q) auto
  with assms have m: "m = smallest e es" and q': "q' = remove1 m (e # es)"
    by (auto simp: Let_def)
  from m smallest_mem [of e es] q show "m \<in> set q" by simp
  from q q' show "q' = remove1 m q" by simp
  from m q smallest_least [of e es] show "\<forall>x \<in> set q. \<not> entry_less x m" by blast
qed

lemma mset_drain: "mset (drain q) = mset q"
proof (induction q rule: drain.induct)
  case (1 q)
  show ?case
  proof (cases "heappop q")
    case None
    then have "q = []" by (cases q) (auto simp: Let_def)
    then show ?thesis by (simp add: drain.simps)
  next
    case (Some a)
    obtain m q' where a: "a = (m, q')" by (cases a)
    from Some a heappop_Some [of q m q'] have m: "m \<in> set q" and q': "q' = remove1 m q"
      by simp_all
    from 1 [OF Some a [symmetric]] have "mset (drain q') = mset q'" .
    with Some a m q' show ?thesis
      by (simp add: drain.simps [of q])
  qed
qed

lemma set_drain: "set (drain q) = set q"
  using mset_drain [of q] by (metis set_mset_mset)

lemma drain_sorted: "sorted_wrt (\<lambda>a b. \<not> entry_less b a) (drain q)"
proof (induction q rule: drain.induct)
  case (1 q)
  show ?case
  proof (cases "heappop q")
    case None
    then show ?thesis by (simp add: drain.simps [of q])
  next
    case (Some a)
    obtain m q' where a: "a = (m, q')" by (cases a)
    from Some a heappop_Some [of q m q'] have q': "q' = remove1 m q"
      and least: "\<forall>x \<in> set q. \<not> entry_less x m"
      by simp_all
    from 1 [OF Some a [symmetric]] have ih: "sorted_wrt (\<lambda>a b. \<not> entry_less b a) (drain q')" .
    have "set (drain q') \<subseteq> set q"
      using q' set_drain [of q'] set_remove1_subset [of m q] by simp
    with least have "\<forall>x \<in> set (drain q'). \<not> entry_less x m"
      by blast
    with ih Some a show ?thesis
      by (simp add: drain.simps [of q])
  qed
qed

lemma drain_prio_sorted: "sorted (map entry_prio (drain q))"
proof -
  have "sorted_wrt (\<lambda>a b. entry_prio a \<le> entry_prio b) (drain q)"
    by (rule sorted_wrt_mono_rel [OF _ drain_sorted]) (auto simp: entry_less_def)
  then show ?thesis
    by (simp add: sorted_map)
qed

lemma drain_stable:
  assumes "sorted_wrt (<) (map entry_seq q)"
  shows "filter (\<lambda>e. entry_prio e = k) (drain q) = filter (\<lambda>e. entry_prio e = k) q"
proof -
  let ?P = "\<lambda>e. entry_prio e = k"
  from assms have dq: "distinct (map entry_seq q)"
    using strict_sorted_iff by blast 
  then have inj: "inj_on entry_seq (set q)"
    by (simp add: distinct_map)
  have "distinct (map entry_seq (drain q))"
    using dq mset_drain [of q] by (metis distinct_map mset_eq_setD mset_eq_imp_distinct_iff)
  then have ddrain: "distinct (map entry_seq (filter ?P (drain q)))"
    by (simp add: distinct_map_filter)
  have "sorted_wrt (\<lambda>a b. entry_seq a \<le> entry_seq b) (filter ?P (drain q))"
    by (rule sorted_wrt_mono_rel [OF _ sorted_wrt_filter [OF drain_sorted]])
       (auto simp: entry_less_def)
  then have s1: "sorted (map entry_seq (filter ?P (drain q)))"
    by (simp add: sorted_map)
  from assms have "sorted_wrt (\<lambda>a b. entry_seq a < entry_seq b) (filter ?P q)"
    by (simp add: sorted_wrt_map sorted_wrt_filter)
  then have "sorted_wrt (<) (map entry_seq (filter ?P q))"
    by (simp add: sorted_wrt_map)
  then have s2: "sorted (map entry_seq (filter ?P q))" and d2: "distinct (map entry_seq (filter ?P q))"
    using strict_sorted_iff by blast+
  have "set (map entry_seq (filter ?P (drain q))) = set (map entry_seq (filter ?P q))"
    by (simp add: set_drain)
  with s1 ddrain s2 d2 have "map entry_seq (filter ?P (drain q)) = map entry_seq (filter ?P q)"
    by (rule sorted_distinct_set_unique)
  moreover have "inj_on entry_seq (set (filter ?P (drain q)) \<union> set (filter ?P q))"
    by (rule inj_on_subset [OF inj]) (auto simp: set_drain)
  ultimately show ?thesis
    by (simp add: inj_on_map_eq_map)
qed


lemma upt_shift: "[sq ..< sq + Suc n] = sq # [Suc sq ..< Suc sq + n]"
  by (subst upt_conv_Cons) simp_all

lemma enqueue_new_step:
  assumes "has_id t" and "the (task_id t) \<notin> seen"
    and "enqueue_new (t # ts) (sq, seen, q) = Inr r"
  shows "\<exists>prio. get_priority t = Inr prio \<and>
           enqueue_new ts (Suc sq, insert (the (task_id t)) seen, heappush q (prio, sq, task_id t, t)) = Inr r"
proof (cases "get_priority t")
  case (Inl err)
  with assms show ?thesis by simp
next
  case (Inr prio)
  with assms show ?thesis by simp
qed

lemma enqueue_new_all:
  assumes "list_all has_id ts" and "distinct (map task_id ts)"
    and "\<forall>t \<in> set ts. the (task_id t) \<notin> seen"
    and "enqueue_new ts (sq, seen, q) = Inr (sq', seen', q')"
  shows "\<exists>new. q' = q @ new \<and> map entry_task new = ts
           \<and> map entry_seq new = [sq ..< sq + length ts]
           \<and> (\<forall>e \<in> set new. get_priority (entry_task e) = Inr (entry_prio e))"
  using assms
proof (induction ts arbitrary: sq seen q)
  case Nil
  then show ?case by simp
next
  case (Cons t ts)
  from Cons.prems(1) have ht: "has_id t" and hts: "list_all has_id ts"
    by simp_all
  from Cons.prems(3) have fresh: "the (task_id t) \<notin> seen"
    by simp
  from enqueue_new_step [OF ht fresh Cons.prems(4)] obtain prio where p: "get_priority t = Inr prio"
    and rest: "enqueue_new ts (Suc sq, insert (the (task_id t)) seen, heappush q (prio, sq, task_id t, t))
         = Inr (sq', seen', q')"
    by auto
  have others: "\<forall>u \<in> set ts. the (task_id u) \<notin> insert (the (task_id t)) seen"
  proof
    fix u
    assume u: "u \<in> set ts"
    with hts have hu: "has_id u"
      by (simp add: list_all_iff)
    from ht obtain a where a: "task_id t = Some a"
      by (cases "task_id t") (simp_all add: has_id_def)
    from hu obtain b where b: "task_id u = Some b"
      by (cases "task_id u") (simp_all add: has_id_def)
    from Cons.prems(2) have "task_id t \<notin> task_id ` set ts"
      by simp
    moreover from u have "task_id u \<in> task_id ` set ts"
      by (rule imageI)
    ultimately have "task_id u \<noteq> task_id t"
      by auto
    with a b have "the (task_id u) \<noteq> the (task_id t)"
      by simp
    moreover from Cons.prems(3) u have "the (task_id u) \<notin> seen"
      by simp
    ultimately show "the (task_id u) \<notin> insert (the (task_id t)) seen"
      by simp
  qed
  from Cons.prems(2) have "distinct (map task_id ts)"
    by simp
  from Cons.IH [OF hts this others rest] obtain new where
    q': "q' = heappush q (prio, sq, task_id t, t) @ new"
    and tasks: "map entry_task new = ts"
    and seqs: "map entry_seq new = [Suc sq ..< Suc sq + length ts]"
    and prios: "\<forall>e \<in> set new. get_priority (entry_task e) = Inr (entry_prio e)"
    by auto
  let ?new = "(prio, sq, task_id t, t) # new"
  have c1: "q' = q @ ?new"
    using q' by (simp add: heappush_def)
  have c2: "map entry_task ?new = t # ts"
    using tasks by (simp add: entry_task_def)
  have c3: "map entry_seq ?new = [sq ..< sq + length (t # ts)]"
  proof -
    have h: "entry_seq (prio, sq, task_id t, t) = sq"
      by (simp add: entry_seq_def)
    have "length (t # ts) = Suc (length ts)"
      by simp
    then have "[sq ..< sq + length (t # ts)] = sq # [Suc sq ..< Suc sq + length ts]"
      by (simp only: upt_shift)
    then show ?thesis
      by (simp only: list.map seqs h)
  qed
  have c4: "\<forall>e \<in> set ?new. get_priority (entry_task e) = Inr (entry_prio e)"
    using prios p by (simp add: entry_task_def entry_prio_def)
  show ?case
    by (rule exI [of _ ?new]) (intro conjI c1 c2 c3 c4)
qed

text \<open>
  Claim C2.  The tasks of a pending store with distinct ids are polled into an empty
  queue and then popped until the queue is empty.  Every popped entry carries the
  priority of its task; the priorities of the popped entries never decrease (urgent,
  then high, then medium, then low); and for each priority the tasks popped with it
  are the tasks of that priority in the order of the pending store, the order in which
  they were pushed.
\<close>

theorem queue_pops_by_urgency_then_arrival:
  assumes "poll ev (start_watcher tasks done) = Some (Inr w)"
    and "distinct (map task_id (task_file w))"
  shows "map (\<lambda>e. get_priority (entry_task e)) (drain (task_queue w))
           = map (\<lambda>e. Inr (entry_prio e)) (drain (task_queue w))
         \<and> sorted (map entry_prio (drain (task_queue w)))
         \<and> (\<forall>k. map entry_task (filter (\<lambda>e. entry_prio e = k) (drain (task_queue w)))
                = filter (\<lambda>t. get_priority t = Inr k) (task_file w))"
proof -
  let ?w0 = "start_watcher tasks done"
  from assms(1) obtain ts ids n sq seen q where
    a: "assign_ids (random_suffix ev) (task_file ?w0) (existing_ids (task_file ?w0)) (tick ?w0) = Some (ts, ids, n)"
    and e: "enqueue_new ts (seq ?w0, seen_ids ?w0, task_queue ?w0) = Inr (sq, seen, q)"
    and w: "w = ?w0\<lparr>task_file := ts, seq := sq, seen_ids := seen, task_queue := q, tick := n\<rparr>"
    by (auto simp: poll_def split: option.splits sum.splits)
  from w have pw: "task_file w = ts" and qw: "task_queue w = q"
    by simp_all
  from a have ids: "list_all has_id ts"
    by (rule assign_ids_has_id)
  from e have e0: "enqueue_new ts (0, {}, []) = Inr (sq, seen, q)"
    by (simp add: start_watcher_def)
  from assms(2) pw have dist: "distinct (map task_id ts)"
    by simp
  have unseen: "\<forall>t \<in> set ts. the (task_id t) \<notin> {}"
    by simp
  from enqueue_new_all [OF ids dist unseen e0] obtain new where
    q0: "q = [] @ new" and tasks: "map entry_task new = ts"
    and seqs: "map entry_seq new = [0 ..< length ts]"
    and prios: "\<forall>e \<in> set new. get_priority (entry_task e) = Inr (entry_prio e)"
    by auto
  from q0 have q: "q = new"
    by simp
  have "\<forall>e \<in> set (drain q). get_priority (entry_task e) = Inr (entry_prio e)"
    unfolding set_drain q by (rule prios)
  then have one: "map (\<lambda>e. get_priority (entry_task e)) (drain q) = map (\<lambda>e. Inr (entry_prio e)) (drain q)"
    by simp
  have two: "sorted (map entry_prio (drain q))"
    by (rule drain_prio_sorted)
  have three: "map entry_task (filter (\<lambda>e. entry_prio e = k) (drain q))
                = filter (\<lambda>t. get_priority t = Inr k) ts" for k
  proof -
    have "sorted_wrt (<) (map entry_seq q)"
      using seqs q by simp
    then have "filter (\<lambda>e. entry_prio e = k) (drain q) = filter (\<lambda>e. entry_prio e = k) q"
      by (rule drain_stable)
    also have "\<dots> = filter (\<lambda>e. get_priority (entry_task e) = Inr k) q"
    proof (rule filter_cong [OF refl])
      fix e
      assume "e \<in> set q"
      with prios q have "get_priority (entry_task e) = Inr (entry_prio e)"
        by simp
      then show "(entry_prio e = k) = (get_priority (entry_task e) = Inr k)"
        by auto
    qed
    finally have "map entry_task (filter (\<lambda>e. entry_prio e = k) (drain q))
        = map entry_task (filter (\<lambda>e. get_priority (entry_task e) = Inr k) q)"
      by (rule arg_cong)
    also have "\<dots> = filter (\<lambda>t. get_priority t = Inr k) (map entry_task q)"
      by (simp only: filter_map comp_def)
    also from tasks q have "map entry_task q = ts"
      by simp
    finally show ?thesis .
  qed
  show ?thesis
    unfolding pw qw by (intro conjI allI one two three)
qed

lemmas watcher_eval = poll_def start_watcher_def new_task_def existing_ids_def has_id_def
  get_priority_def payload_urgency_def priority_of_string_def PRIORITY_ORDER_def lower_simps
  heappush_def failing_env_def

theorem queue_pops_by_urgency_then_arrival_witness:
  "\<exists>w. poll failing_env (start_watcher five_tasks []) = Some (Inr w)
     \<and> distinct (map task_id (task_file w))
     \<and> sorted (map entry_prio (drain (task_queue w)))
     \<and> map entry_task (filter (\<lambda>e. entry_prio e = 0) (drain (task_queue w)))
         = filter (\<lambda>t. get_priority t = Inr 0) (task_file w)
     \<and> map (\<lambda>e. the (task_id (entry_task e))) (drain (task_queue w))
         = [''Task-b'', ''Task-d'', ''Task-c'', ''Task-e'', ''Task-a'']"
proof -
  have "\<exists>w. poll failing_env (start_watcher five_tasks []) = Some (Inr w) \<and> task_file w = five_tasks
     \<and> map (\<lambda>e. the (task_id (entry_task e))) (drain (task_queue w))
         = [''Task-b'', ''Task-d'', ''Task-c'', ''Task-e'', ''Task-a'']"
    by (simp add: five_tasks_def watcher_eval drain.simps entry_less_def entry_prio_def
          entry_seq_def entry_task_def)
  then obtain w where p: "poll failing_env (start_watcher five_tasks []) = Some (Inr w)"
    and pw: "task_file w = five_tasks"
    and order: "map (\<lambda>e. the (task_id (entry_task e))) (drain (task_queue w))
         = [''Task-b'', ''Task-d'', ''Task-c'', ''Task-e'', ''Task-a'']"
    by auto
  have d: "distinct (map task_id (task_file w))"
    by (simp add: pw five_tasks_def new_task_def)
  note th = queue_pops_by_urgency_then_arrival [OF p d]
  have s: "sorted (map entry_prio (drain (task_queue w)))"
    by (rule conjunct1 [OF conjunct2 [OF th]])
  have f: "map entry_task (filter (\<lambda>e. entry_prio e = 0) (drain (task_queue w)))
         = filter (\<lambda>t. get_priority t = Inr 0) (task_file w)"
    by (rule spec [OF conjunct2 [OF conjunct2 [OF th]]])
  show ?thesis
    by (rule exI [of _ w]) (intro conjI p d s f order)
qed

section \<open>Properties of the delegator\<close>

subsection \<open>The streaming loop\<close>

lemma stream_loop_keeps_reading:
  "keeps_reading r \<Longrightarrow> \<exists>task' s'. stream_loop cb c (r # rs) task s n = stream_loop cb c rs task' s' (Suc n)"
  by (cases "(cb, c, r # rs, task, s, n)" rule: stream_loop.cases)
     (auto simp: keeps_reading_def Let_def split: prod.splits option.splits event.splits)

lemma stream_loop_prefix:
  "list_all keeps_reading pre \<Longrightarrow>
     \<exists>task' s'. stream_loop cb c (pre @ rs) task s n = stream_loop cb c rs task' s' (n + length pre)"
proof (induction pre arbitrary: task s n)
  case Nil
  show ?case by auto
next
  case (Cons r pre)
  then have k: "keeps_reading r" and ks: "list_all keeps_reading pre"
    by simp_all
  from stream_loop_keeps_reading [OF k, of cb c "pre @ rs" task s n] obtain task1 s1 where
    a: "stream_loop cb c (r # pre @ rs) task s n = stream_loop cb c (pre @ rs) task1 s1 (Suc n)"
    by auto
  from Cons.IH [OF ks, of task1 s1 "Suc n"] obtain task2 s2 where
    b: "stream_loop cb c (pre @ rs) task1 s1 (Suc n) = stream_loop cb c rs task2 s2 (Suc n + length pre)"
    by auto
  from a b show ?case
    by auto
qed

lemma stream_loop_Result:
  "stream_loop cb c (Result ev # rs) task s n =
     (case ev of
        Some (MessageEvent m) \<Rightarrow> (MessageResult m, Suc n, s)
      | _ \<Rightarrow>
        (let (task', s') =
            (case (cb, ev) of
               (Some f, Some e) \<Rightarrow> (let (t, s1) = f s e c in (Some t, s1))
             | _ \<Rightarrow> (task, s))
         in if is_final ev then (result_of task', Suc n, s')
            else stream_loop cb c rs task' s' (Suc n)))"
proof (cases ev)
  case None
  then show ?thesis by simp
next
  case (Some e)
  then show ?thesis by (cases e) simp_all
qed

lemma stream_no_callback:
  "fst (stream_loop None c rs None s n) \<noteq> TaskResult t"
proof (induction rs arbitrary: n)
  case Nil
  show ?case by (simp add: result_of_def)
next
  case (Cons r rs)
  show ?case
  proof (cases r)
    case (JSONRPCErrorResponse err)
    then show ?thesis by simp
  next
    case (Result ev)
    with Cons.IH [of "Suc n"] show ?thesis
      by (simp add: stream_loop_Result result_of_def split: option.splits event.splits)
  qed
qed

lemma stream_empty_results:
  "list_all (\<lambda>r. r = Result None) rs \<Longrightarrow> stream_loop cb c rs None s n = (NoResult, n + length rs, s)"
  by (induction rs arbitrary: n) (auto simp: result_of_def is_final_def Let_def split: option.splits)

text \<open>
  Claim C6.  In streaming mode, when the responses before a message all keep the loop
  reading, the client returns that message and has read exactly the responses up to
  and including it, whatever follows.  A stream with no response gives no task
  (\<open>None\<close>).  Without a callback no task update is delivered and the result is never a
  task; and when every response has an empty result, so that nothing is delivered to
  the callback, the result is \<open>None\<close>.
\<close>

theorem streamed_message_returned_at_once:
  assumes "streaming (card wk)"
  shows "(stream_reply wk req = pre @ Result (Some (MessageEvent m)) # rest \<and> list_all keeps_reading pre
            \<longrightarrow> (\<exists>s'. client_send_message wk req cb s = (MessageResult m, Suc (length pre), s')))
       \<and> (stream_reply wk req = [] \<longrightarrow> client_send_message wk req cb s = (NoResult, 0, s))
       \<and> (\<forall>t. fst (client_send_message wk req None s) \<noteq> TaskResult t)
       \<and> (list_all (\<lambda>r. r = Result None) (stream_reply wk req)
            \<longrightarrow> fst (client_send_message wk req cb s) = NoResult)"
proof (intro conjI impI allI)
  assume h: "stream_reply wk req = pre @ Result (Some (MessageEvent m)) # rest \<and> list_all keeps_reading pre"
  from stream_loop_prefix [of pre cb "card wk" "Result (Some (MessageEvent m)) # rest" None s 0] h
  obtain task' s' where
    "stream_loop cb (card wk) (pre @ Result (Some (MessageEvent m)) # rest) None s 0
       = stream_loop cb (card wk) (Result (Some (MessageEvent m)) # rest) task' s' (0 + length pre)"
    by auto
  with h assms show "\<exists>s'. client_send_message wk req cb s = (MessageResult m, Suc (length pre), s')"
    by (simp add: client_send_message_def)
next
  assume "stream_reply wk req = []"
  with assms show "client_send_message wk req cb s = (NoResult, 0, s)"
    by (simp add: client_send_message_def result_of_def)
next
  fix t
  from assms show "fst (client_send_message wk req None s) \<noteq> TaskResult t"
    by (simp add: client_send_message_def stream_no_callback)
next
  assume "list_all (\<lambda>r. r = Result None) (stream_reply wk req)"
  with assms show "fst (client_send_message wk req cb s) = NoResult"
    by (simp add: client_send_message_def stream_empty_results)
qed

theorem streamed_message_returned_at_once_witness:
  "client_send_message (streaming_worker working_then_message) (build_request ''m-1'' ''Hello'' fresh_context)
      (Some counting_callback) 0 = (MessageResult greeting, 3, 2)
   \<and> client_send_message (streaming_worker []) (build_request ''m-1'' ''Hello'' fresh_context)
      (Some counting_callback) 0 = (NoResult, 0, 0)"
proof -
  have st: "streaming (card (streaming_worker rs))" for rs
    by (simp add: streaming_worker_def)
  have pre: "stream_reply (streaming_worker working_then_message) (build_request ''m-1'' ''Hello'' fresh_context)
      = [Result (Some (TaskStatusUpdateEvent False working)), Result (Some (TaskStatusUpdateEvent False working))]
        @ Result (Some (MessageEvent greeting)) # [Result (Some (TaskStatusUpdateEvent True completed))]
      \<and> list_all keeps_reading
           [Result (Some (TaskStatusUpdateEvent False working)), Result (Some (TaskStatusUpdateEvent False working))]"
    by (simp add: streaming_worker_def working_then_message_def keeps_reading_def is_final_def)
  have none: "stream_reply (streaming_worker []) (build_request ''m-1'' ''Hello'' fresh_context) = []"
    by (simp add: streaming_worker_def)
  note th1 = streamed_message_returned_at_once [OF st [of working_then_message],
      where req = "build_request ''m-1'' ''Hello'' fresh_context"
        and pre = "[Result (Some (TaskStatusUpdateEvent False working)), Result (Some (TaskStatusUpdateEvent False working))]"
        and m = greeting and rest = "[Result (Some (TaskStatusUpdateEvent True completed))]"
        and cb = "Some counting_callback" and s = "0 :: nat"]
  from conjunct1 [OF th1] pre
  have "\<exists>s'. client_send_message (streaming_worker working_then_message)
          (build_request ''m-1'' ''Hello'' fresh_context) (Some counting_callback) 0
        = (MessageResult greeting, Suc (length [Result (Some (TaskStatusUpdateEvent False working)),
             Result (Some (TaskStatusUpdateEvent False working))]), s')"
    by (rule mp)
  moreover have "snd (snd (client_send_message (streaming_worker working_then_message)
          (build_request ''m-1'' ''Hello'' fresh_context) (Some counting_callback) 0)) = 2"
    by (simp add: client_send_message_def streaming_worker_def working_then_message_def
          counting_callback_def is_final_def)
  ultimately have a: "client_send_message (streaming_worker working_then_message)
      (build_request ''m-1'' ''Hello'' fresh_context) (Some counting_callback) 0 = (MessageResult greeting, 3, 2)"
    by auto
  note th2 = streamed_message_returned_at_once [OF st [of "[]"],
      where req = "build_request ''m-1'' ''Hello'' fresh_context"
        and cb = "Some counting_callback" and s = "0 :: nat"]
  from conjunct1 [OF conjunct2 [OF th2]] none
  have b: "client_send_message (streaming_worker []) (build_request ''m-1'' ''Hello'' fresh_context)
      (Some counting_callback) 0 = (NoResult, 0, 0)"
    by (rule mp)
  from a b show ?thesis
    by simp
qed

subsection \<open>The session coordinator\<close>

text \<open>
  Converting parts writes the saved artifacts and the two action flags of the tool
  context and nothing else, and it raises no \<open>ValueError\<close>.
\<close>

lemma convert_part_frame:
  "convert_part b p tc = (r, tc') \<Longrightarrow>
     session_active tc' = session_active tc \<and> state_task_id tc' = state_task_id tc
     \<and> state_context_id tc' = state_context_id tc \<and> (\<forall>m. r \<noteq> Inl (ValueError m))"
  by (auto simp: convert_part_def split: part_root.splits file_content.splits option.splits)

lemma convert_parts_frame:
  "convert_parts b ps tc = (r, tc') \<Longrightarrow>
     session_active tc' = session_active tc \<and> state_task_id tc' = state_task_id tc
     \<and> state_context_id tc' = state_context_id tc \<and> (\<forall>m. r \<noteq> Inl (ValueError m))"
proof (induction ps arbitrary: tc r tc')
  case Nil
  then show ?case by auto
next
  case (Cons p ps)
  obtain r1 tc1 where c: "convert_part b p tc = (r1, tc1)"
    by (cases "convert_part b p tc")
  note f1 = convert_part_frame [OF c]
  show ?case
  proof (cases r1)
    case (Inl err)
    with Cons.prems c f1 show ?thesis by auto
  next
    case (Inr v)
    obtain r2 tc2 where d: "convert_parts b ps tc1 = (r2, tc2)"
      by (cases "convert_parts b ps tc1")
    note f2 = Cons.IH [OF d]
    from Cons.prems c Inr d f1 f2 show ?thesis
      by (cases r2) auto
  qed
qed

lemma convert_artifacts_frame:
  "convert_artifacts b as tc = (r, tc') \<Longrightarrow>
     session_active tc' = session_active tc \<and> state_task_id tc' = state_task_id tc
     \<and> state_context_id tc' = state_context_id tc \<and> (\<forall>m. r \<noteq> Inl (ValueError m))"
proof (induction as arbitrary: tc r tc')
  case Nil
  then show ?case by auto
next
  case (Cons a as)
  obtain r1 tc1 where c: "convert_parts b a tc = (r1, tc1)"
    by (cases "convert_parts b a tc")
  note f1 = convert_parts_frame [OF c]
  show ?case
  proof (cases r1)
    case (Inl err)
    with Cons.prems c f1 show ?thesis by auto
  next
    case (Inr v)
    obtain r2 tc2 where d: "convert_artifacts b as tc1 = (r2, tc2)"
      by (cases "convert_artifacts b as tc1")
    note f2 = Cons.IH [OF d]
    from Cons.prems c Inr d f1 f2 show ?thesis
      by (cases r2) auto
  qed
qed

lemma collect_outputs_frame:
  assumes "collect_outputs b t tc = (r, tc')"
  shows "session_active tc' = session_active tc \<and> state_task_id tc' = state_task_id tc
     \<and> state_context_id tc' = state_context_id tc \<and> (\<forall>m. r \<noteq> Inl (ValueError m))"
proof -
  let ?ps = "case status_message t of None \<Rightarrow> [] | Some m \<Rightarrow> parts m"
  let ?as = "case artifacts t of None \<Rightarrow> [] | Some as \<Rightarrow> as"
  obtain r1 tc1 where c: "convert_parts b ?ps tc = (r1, tc1)"
    by (cases "convert_parts b ?ps tc")
  note f1 = convert_parts_frame [OF c]
  show ?thesis
  proof (cases r1)
    case (Inl err)
    with assms c f1 show ?thesis by (auto simp: collect_outputs_def)
  next
    case (Inr v)
    obtain r2 tc2 where d: "convert_artifacts b ?as tc1 = (r2, tc2)"
      by (cases "convert_artifacts b ?as tc1")
    note f2 = convert_artifacts_frame [OF d]
    from assms c Inr d f1 f2 show ?thesis
      by (cases r2) (auto simp: collect_outputs_def)
  qed
qed

end
